theory Spec2Isabelle
  imports Main "HOL-Library.AList" "HOL-Library.Multiset" "HOL-Library.Sublist"
begin

section \<open>Python values used by backup.py\<close>

text \<open>
  Python strings are modelled as \<^typ>\<open>string\<close>; a \<^typ>\<open>char\<close> stands for the code point
  of the same number (0 to 255). The functions below are the built-ins the script calls,
  restricted to that range: \<^verbatim>\<open>str.strip()\<close>, \<^verbatim>\<open>str(int)\<close>, \<^verbatim>\<open>repr(str)\<close>, \<^verbatim>\<open>repr(list)\<close>
  and \<^verbatim>\<open>sep.join\<close>.
\<close>

definition isspace :: "char \<Rightarrow> bool" where
  \<comment> \<open>the code points below 256 that \<^verbatim>\<open>str.strip()\<close> removes\<close>
  "isspace c =
     (let n = (of_char c :: nat)
      in (9 \<le> n \<and> n \<le> 13) \<or> (28 \<le> n \<and> n \<le> 32) \<or> n = 133 \<or> n = 160)"

definition strip :: "string \<Rightarrow> string" where
  "strip s = rev (dropWhile isspace (rev (dropWhile isspace s)))"

definition digit :: "nat \<Rightarrow> char" where
  "digit d = char_of (48 + d)"

fun str_nat :: "nat \<Rightarrow> string" where
  "str_nat n = (if n < 10 then [digit n] else str_nat (n div 10) @ [digit (n mod 10)])"

declare str_nat.simps [simp del]

definition str_int :: "int \<Rightarrow> string" where
  "str_int i = (if i < 0 then CHR ''-'' # str_nat (nat (- i)) else str_nat (nat i))"

definition hexdigit :: "nat \<Rightarrow> char" where
  "hexdigit d = ''0123456789abcdef'' ! d"

definition isprintable :: "char \<Rightarrow> bool" where
  \<comment> \<open>\<^verbatim>\<open>str.isprintable\<close> below 256: not a control character, not U+00A0, not U+00AD\<close>
  "isprintable c =
     (let n = (of_char c :: nat) in (32 \<le> n \<and> n < 127) \<or> (161 \<le> n \<and> n \<noteq> 173))"

definition repr_char :: "char \<Rightarrow> char \<Rightarrow> string" where
  "repr_char quote ch =
     (let n = (of_char ch :: nat)
      in if ch = quote \<or> ch = CHR 0x5C then [CHR 0x5C, ch]
         else if ch = CHR 0x09 then [CHR 0x5C, CHR ''t'']
         else if ch = CHR 0x0A then [CHR 0x5C, CHR ''n'']
         else if ch = CHR 0x0D then [CHR 0x5C, CHR ''r'']
         else if isprintable ch then [ch]
         else [CHR 0x5C, CHR ''x'', hexdigit (n div 16), hexdigit (n mod 16)])"

definition repr_str :: "string \<Rightarrow> string" where
  \<comment> \<open>single quotes, unless the text has a single quote and no double quote\<close>
  "repr_str s =
     (let quote = (if CHR 0x27 \<in> set s \<and> CHR 0x22 \<notin> set s then CHR 0x22 else CHR 0x27)
      in [quote] @ concat (map (repr_char quote) s) @ [quote])"

fun join :: "string \<Rightarrow> string list \<Rightarrow> string" where
  "join sep [] = []"
| "join sep [x] = x"
| "join sep (x # y # ys) = x @ sep @ join sep (y # ys)"

definition repr_list :: "string list \<Rightarrow> string" where
  "repr_list xs = ''['' @ join '', '' (map repr_str xs) @ '']''"

text \<open>
  Exceptions. \<open>ShellError msg\<close> is the script's own class, with its \<^verbatim>\<open>msg\<close> attribute.
  \<open>OtherException t\<close> is an instance of any other subclass of \<^verbatim>\<open>Exception\<close> (an
  \<^verbatim>\<open>OSError\<close> of \<^verbatim>\<open>Popen\<close> or \<^verbatim>\<open>os.chdir\<close>, an \<^verbatim>\<open>SMTPException\<close>, ...) whose \<^verbatim>\<open>str()\<close> is
  \<open>t\<close>. \<open>NonException t\<close> is an instance of \<^verbatim>\<open>BaseException\<close> outside \<^verbatim>\<open>Exception\<close>
  (\<^verbatim>\<open>SystemExit\<close>, \<^verbatim>\<open>KeyboardInterrupt\<close>, \<^verbatim>\<open>GeneratorExit\<close>): an \<^verbatim>\<open>except Exception\<close>
  clause does not catch it.
\<close>

datatype exn = ShellError string | OtherException string | NonException string

fun is_Exception :: "exn \<Rightarrow> bool" where
  "is_Exception (ShellError m) = True"
| "is_Exception (OtherException t) = True"
| "is_Exception (NonException t) = False"

fun exn_str :: "exn \<Rightarrow> string" where
  "exn_str (ShellError m) = m"
| "exn_str (OtherException t) = t"
| "exn_str (NonException t) = t"

text \<open>
  The values the script puts into the error list and passes to \<^verbatim>\<open>notify\<close> as \<^verbatim>\<open>msg\<close>:
  a string, or an exception object. \<open>py_str\<close> is \<^verbatim>\<open>str()\<close> on them.
\<close>

datatype entry = Str string | ExcObj exn

fun py_str :: "entry \<Rightarrow> string" where
  "py_str (Str t) = t"
| "py_str (ExcObj e) = exn_str e"

section \<open>The world outside the script\<close>

text \<open>
  What \<^verbatim>\<open>subprocess.Popen\<close> followed by \<^verbatim>\<open>communicate\<close> gives: the process ran and
  exited with a return code and the two decoded streams, or one of the two calls raised
  an exception of class \<^verbatim>\<open>Exception\<close> (the program was not found, the output could not be
  decoded) with the given text.
\<close>

datatype proc_result = Exited int string string | Raised string

text \<open>
  Everything the run reads from outside. \<open>popen n cmd\<close> is the outcome of the \<open>n\<close>-th
  subprocess of the run (counting from 0) when started with \<open>cmd\<close>; \<open>smtp n message\<close> is
  the outcome of the \<open>n\<close>-th mail session: \<open>None\<close> when the message was sent, \<open>Some t\<close>
  when the session raised an exception with text \<open>t\<close>; \<open>chdir p\<close> likewise for
  \<^verbatim>\<open>os.chdir\<close>; \<open>randbelow n\<close> is the draw of the random generator for the bound \<open>n\<close>;
  \<open>environ\<close> is \<^verbatim>\<open>os.environ\<close> in insertion order; \<open>ctime\<close> is \<^verbatim>\<open>time.ctime()\<close>;
  \<open>home_path ps\<close> is \<^verbatim>\<open>str(Path.home() / p1 / ... / pn)\<close>. Signals delivered to the
  script while it runs are asynchronous and are not part of this sequential model.
\<close>

record world =
  popen :: "nat \<Rightarrow> string list \<Rightarrow> proc_result"
  smtp :: "nat \<Rightarrow> string \<Rightarrow> string option"
  chdir :: "string \<Rightarrow> string option"
  randbelow :: "nat \<Rightarrow> nat"
  environ :: "(string \<times> string) list"
  ctime :: string
  home_path :: "string list \<Rightarrow> string"

text \<open>One call of \<^verbatim>\<open>Popen\<close>: the command, the text fed to standard input, the environment.\<close>

record invocation =
  inv_args :: "string list"
  inv_stdin :: "string option"
  inv_env :: "(string \<times> string) list option"

text \<open>One call of \<^verbatim>\<open>notify\<close>: its subject, its message text, and whether it was sent.\<close>

record mail =
  mail_subject :: string
  mail_msg :: string
  delivered :: bool

text \<open>
  The state of a run: the subprocesses started so far, the one error list of the run
  (the list object \<^verbatim>\<open>errors\<close> of \<^verbatim>\<open>do_backup_windows\<close>, which every \<^verbatim>\<open>try_task\<close> call
  receives by reference and \<^verbatim>\<open>backup_c_drive\<close> receives as well), the mail sessions so
  far, and the working directory (\<open>None\<close>: the one the script was started in). The
  \<^verbatim>\<open>print\<close> calls of the script write to the console only and are left out.
\<close>

record state =
  calls :: "invocation list"
  errors :: "entry list"
  mails :: "mail list"
  cwd :: "string option"

text \<open>
  A piece of the script: it runs from a state and ends in a state, either returning a
  value (\<open>Inr\<close>) or raising (\<open>Inl\<close>). Effects made before a raise stay.
\<close>

type_synonym 'a prog = "state \<Rightarrow> (exn + 'a) \<times> state"

definition ret :: "'a \<Rightarrow> 'a prog" where
  "ret x s = (Inr x, s)"

definition and_then :: "'a prog \<Rightarrow> ('a \<Rightarrow> 'b prog) \<Rightarrow> 'b prog" where
  "and_then m f s = (case m s of (Inl e, s') \<Rightarrow> (Inl e, s') | (Inr x, s') \<Rightarrow> f x s')"

section \<open>Backup config\<close>

definition BACKUP_DIRS :: "string list" where
  "BACKUP_DIRS =
     [''Documents'', ''Pictures'', ''Music'', ''Videos'', ''build'', ''AppData/Roaming'',
      ''VirtualBox VMs'']"

definition RESTIC_ENV_VARS :: "(string \<times> string) list" where
  \<comment> \<open>a dict; its items in insertion order\<close>
  "RESTIC_ENV_VARS =
     [(''RESTIC_REPOSITORY'', ''s3:s3.us-east-005.backblazeb2.com/MYBUCKETNAME''),
      (''AWS_ACCESS_KEY_ID'', ''*************''),
      (''AWS_SECRET_ACCESS_KEY'', ''*********************''),
      (''RESTIC_PASSWORD'', ''*************************'')]"

definition EXCLUDE_PATH_PATTERNS :: "string list" where
  "EXCLUDE_PATH_PATTERNS =
     [''node_modules/**'', ''.cache/**'', ''.vscode/**'', ''.npm/**'', ''.vscode-server/**'']"

definition gen_exclude_flags :: "string list \<Rightarrow> string list" where
  "gen_exclude_flags patterns =
     fold (\<lambda>pattern flags. flags @ [''--exclude'', pattern]) patterns []"

definition RESTIC_DEFAULT_ARGS :: "string list" where
  "RESTIC_DEFAULT_ARGS = gen_exclude_flags EXCLUDE_PATH_PATTERNS"

definition RCLONE_BASE :: "string list" where
  "RCLONE_BASE = [''rclone'', ''sync'', ''--links''] @ gen_exclude_flags EXCLUDE_PATH_PATTERNS"

section \<open>Command runner, notifier, task wrapper\<close>

definition sh ::
  "world \<Rightarrow> string list \<Rightarrow> bool \<Rightarrow> string option \<Rightarrow> (string \<times> string) list option \<Rightarrow>
   string prog" where
  "sh w cmd check stdin_str env s =
     (let s' = s\<lparr>calls := calls s @ [\<lparr>inv_args = cmd, inv_stdin = stdin_str, inv_env = env\<rparr>]\<rparr>
      in case popen w (length (calls s)) cmd of
           Raised t \<Rightarrow> (Inl (OtherException t), s')
         | Exited returncode out err \<Rightarrow>
             (let stdout = strip out; stderr = strip err
              in if check \<and> returncode \<noteq> 0
                 then (Inl (ShellError
                        (''[script] Failed to run command: '' @ repr_list cmd @ [CHR 0x0A] @
                         ''[script] Return code: '' @ str_int returncode @ [CHR 0x0A, CHR 0x0A] @
                         ''[script] Stdout:'' @ [CHR 0x0A] @ stdout @ [CHR 0x0A] @
                         ''[script] Stderr:'' @ [CHR 0x0A] @ stderr)), s')
                 else (Inr stdout, s')))"

definition notify :: "world \<Rightarrow> string \<Rightarrow> entry \<Rightarrow> unit prog" where
  "notify w subject msg s =
     (let message = ''Subject: '' @ subject @ [CHR 0x0A, CHR 0x0A] @ py_str msg
      in case smtp w (length (mails s)) message of
           None \<Rightarrow>
             (Inr (), s\<lparr>mails := mails s @
                [\<lparr>mail_subject = subject, mail_msg = py_str msg, delivered = True\<rparr>]\<rparr>)
         | Some t \<Rightarrow>
             (Inl (OtherException t), s\<lparr>mails := mails s @
                [\<lparr>mail_subject = subject, mail_msg = py_str msg, delivered = False\<rparr>]\<rparr>))"

definition try_task :: "unit prog \<Rightarrow> unit prog" where
  \<comment> \<open>\<^verbatim>\<open>error_list\<close> is the \<open>errors\<close> field of the state\<close>
  "try_task task_func s =
     (case task_func s of
        (Inr u, s') \<Rightarrow> (Inr (), s')
      | (Inl (ShellError m), s') \<Rightarrow> (Inr (), s'\<lparr>errors := errors s' @ [Str m]\<rparr>)
      | (Inl (OtherException t), s') \<Rightarrow>
          (Inr (), s'\<lparr>errors := errors s' @ [ExcObj (OtherException t)]\<rparr>)
      | (Inl (NonException t), s') \<Rightarrow> (Inl (NonException t), s'))"

section \<open>The tasks\<close>

definition backup_windows_dir :: "world \<Rightarrow> string \<Rightarrow> unit prog" where
  \<comment> \<open>\<open>dir\<close> is \<^verbatim>\<open>str(dir)\<close> of the path passed in\<close>
  "backup_windows_dir w dir =
     (let cmd = [''restic''] @ RESTIC_DEFAULT_ARGS @
                [''backup'', dir, ''--use-fs-snapshot'', ''--tag'', ''Windows''];
          env = fold (\<lambda>(var, val) e. AList.update var val e) RESTIC_ENV_VARS (environ w)
      in and_then (sh w cmd True None (Some env)) (\<lambda>_. ret ()))"

definition backup_aws :: "world \<Rightarrow> unit prog" where
  "backup_aws w =
     (let ghidra_src = ''ghidra:/home/ghidra'';
          ghidra_dst = home_path w [''backup'', ''aws'', ''ghidra''];
          ghidra_cmd = RCLONE_BASE @ [ghidra_src, ghidra_dst, ''--exclude'', ''.dotfiles/**''];
          twitchbot_src = ''twitchbot:/home/twitchbot'';
          twitchbot_dst = home_path w [''backup'', ''aws'', ''twitchbot''];
          twitchbot_cmd =
            RCLONE_BASE @ [twitchbot_src, twitchbot_dst, ''--exclude'', ''.dotfiles/**'']
      in and_then (sh w ghidra_cmd True None None) (\<lambda>_.
         and_then (sh w twitchbot_cmd True None None) (\<lambda>_. ret ())))"

definition commit_notes :: "world \<Rightarrow> unit prog" where
  "commit_notes w s =
     (let date = ctime w; notes = home_path w [''Documents'', ''notes'']
      in case chdir w notes of
           Some t \<Rightarrow> (Inl (OtherException t), s)
         | None \<Rightarrow>
             and_then (sh w [''git'', ''add'', ''.''] True None None) (\<lambda>_.
             and_then (sh w [''git'', ''commit'', ''-m'', ''Update '' @ date] False None None)
               (\<lambda>_. ret ()))
               (s\<lparr>cwd := Some notes\<rparr>))"

definition choco_upgrade :: "world \<Rightarrow> unit prog" where
  "choco_upgrade w = and_then (sh w [''choco'', ''upgrade'', ''all''] True None None) (\<lambda>_. ret ())"

definition wsl_upgrade :: "world \<Rightarrow> unit prog" where
  "wsl_upgrade w =
     and_then (sh w [''wsl.exe'', ''sudo'', ''apt'', ''update''] True None None) (\<lambda>_.
     and_then (sh w [''wsl.exe'', ''sudo'', ''apt'', ''upgrade'', ''-y''] True None None)
       (\<lambda>_. ret ()))"

text \<open>
  \<^verbatim>\<open>random.shuffle\<close>, as the standard library writes it: for \<open>i\<close> from the last index
  down to 1, exchange \<open>x[i]\<close> with \<open>x[j]\<close> for a draw \<open>j\<close> below \<open>i + 1\<close>. The library's
  generator returns a number below its bound; the model reduces the world's draw modulo
  the bound.
\<close>

fun shuffle_from :: "(nat \<Rightarrow> nat) \<Rightarrow> nat \<Rightarrow> 'a list \<Rightarrow> 'a list" where
  "shuffle_from rb 0 x = x"
| "shuffle_from rb (Suc i) x =
     (let j = rb (Suc i + 1) mod (Suc i + 1)
      in shuffle_from rb i (x[Suc i := x ! j, j := x ! Suc i]))"

definition shuffle :: "(nat \<Rightarrow> nat) \<Rightarrow> 'a list \<Rightarrow> 'a list" where
  "shuffle rb x = shuffle_from rb (length x - 1) x"

text \<open>The \<^verbatim>\<open>for\<close> loop of \<^verbatim>\<open>backup_c_drive\<close> over the shuffled directories.\<close>

fun backup_c_drive_loop :: "world \<Rightarrow> string list \<Rightarrow> unit prog" where
  "backup_c_drive_loop w [] = ret ()"
| "backup_c_drive_loop w (backup_dir # rest) =
     (let source_path = home_path w [backup_dir]
      in and_then (try_task (backup_windows_dir w source_path))
           (\<lambda>_. backup_c_drive_loop w rest))"

definition backup_c_drive :: "world \<Rightarrow> unit prog" where
  \<comment> \<open>the argument \<^verbatim>\<open>errors\<close> is the \<open>errors\<close> field of the state\<close>
  "backup_c_drive w =
     (let shuffled_dirs = shuffle (randbelow w) BACKUP_DIRS
      in backup_c_drive_loop w shuffled_dirs)"

definition backup_wsl :: "world \<Rightarrow> unit prog" where
  "backup_wsl w =
     (let env0 = environ w;
          wslenv0 = (case map_of env0 ''WSLENV'' of Some v \<Rightarrow> v | None \<Rightarrow> []);
          wslenv = fold (\<lambda>var_name acc. acc @ '':'' @ var_name) (map fst RESTIC_ENV_VARS) wslenv0;
          env1 = AList.update ''WSLENV'' wslenv env0;
          env2 = fold (\<lambda>(var, val) e. AList.update var val e) RESTIC_ENV_VARS env1;
          cmd = [''wsl.exe'', ''--shell-type'', ''none'', ''/home/alex/.local/bin/restic'',
                 ''backup'', ''/home/alex'', ''--tag'', ''WSL''] @ RESTIC_DEFAULT_ARGS
      in and_then (sh w cmd True None (Some env2)) (\<lambda>_. ret ()))"

definition check_restic_integrity :: "world \<Rightarrow> unit prog" where
  "check_restic_integrity w =
     (let env = fold (\<lambda>(var, val) e. AList.update var val e) RESTIC_ENV_VARS (environ w)
      in and_then (sh w [''restic'', ''check''] True None (Some env)) (\<lambda>_. ret ()))"

section \<open>The orchestrator\<close>

definition do_backup_windows :: "world \<Rightarrow> unit prog" where
  "do_backup_windows w s =
     (and_then (try_task (commit_notes w)) (\<lambda>_.
      and_then (try_task (backup_aws w)) (\<lambda>_.
      and_then (try_task (choco_upgrade w)) (\<lambda>_.
      and_then (try_task (wsl_upgrade w)) (\<lambda>_.
      and_then (try_task (backup_c_drive w)) (\<lambda>_.
      and_then (try_task (backup_wsl w)) (\<lambda>_.
      and_then (try_task (check_restic_integrity w)) (\<lambda>_ s1.
        if length (errors s1) = 0
        then notify w ''Backup succeeded'' (Str ''Hope you're having a nice day :)'') s1
        else
          (let subject = ''Backup failed! '' @ str_int (int (length (errors s1))) @ '' error'' @
                         (if length (errors s1) = 1 then [] else ''s'');
               msg = strip (concat (map py_str (errors s1)))
           in notify w subject (Str msg) s1)))))))))
       (s\<lparr>errors := []\<rparr>)"

definition main :: "world \<Rightarrow> unit prog" where
  \<comment> \<open>the \<^verbatim>\<open>__main__\<close> block\<close>
  "main w s =
     (case do_backup_windows w s of
        (Inr u, s') \<Rightarrow> (Inr u, s')
      | (Inl e, s') \<Rightarrow>
          if is_Exception e then notify w ''Backup failed: 1 error'' (ExcObj e) s'
          else (Inl e, s'))"

definition start :: state where
  \<comment> \<open>the state in which the script starts\<close>
  "start = \<lparr>calls = [], errors = [], mails = [], cwd = None\<rparr>"

section \<open>Vocabulary of the proofs\<close>

text \<open>\<^verbatim>\<open>raise e\<close> as the whole body of a function.\<close>

definition throw :: "exn \<Rightarrow> 'a prog" where
  "throw e s = (Inl e, s)"

text \<open>
  An outcome escapes when it raises something that an \<^verbatim>\<open>except Exception\<close> clause does
  not catch.
\<close>

definition escapes :: "(exn + 'a) \<times> state \<Rightarrow> bool" where
  "escapes r = (case fst r of Inl e \<Rightarrow> \<not> is_Exception e | Inr x \<Rightarrow> False)"

text \<open>
  A piece of the script is well behaved when, from every state, nothing escapes from it,
  it starts no mail session, and it leaves the error list extended at its end.
\<close>

definition well_behaved :: "'a prog \<Rightarrow> bool" where
  "well_behaved p =
     (\<forall>s. \<not> escapes (p s) \<and> mails (snd (p s)) = mails s \<and>
          prefix (errors s) (errors (snd (p s))))"

text \<open>
  Two worlds to run the script in. In the calm one every subprocess exits with 0 and
  prints nothing, and mail is sent. In the rough one the first subprocess
  (\<^verbatim>\<open>git add\<close>) and the eighth (the third directory's backup) exit with 3, the second
  (the first \<^verbatim>\<open>rclone\<close>) cannot be started, and the first mail session fails. In
  the third one \<^verbatim>\<open>git commit\<close>, the second subprocess, finds nothing to commit and exits
  with 1. In the fourth one only the last subprocess, \<^verbatim>\<open>restic check\<close>, fails: it exits
  with 1.
\<close>

definition calm_world :: world where
  "calm_world =
     \<lparr>popen = (\<lambda>n cmd. Exited 0 [] []), smtp = (\<lambda>n message. None), chdir = (\<lambda>p. None),
      randbelow = (\<lambda>n. 0), environ = [(''PATH'', ''C:/Windows'')],
      ctime = ''Tue Nov  3 17:15:00 2026'',
      home_path = (\<lambda>ps. ''C:/Users/alex'' @ concat (map (\<lambda>p. ''/'' @ p) ps))\<rparr>"

definition rough_world :: world where
  "rough_world =
     calm_world
       \<lparr>popen := (\<lambda>n cmd. if n = 0 \<or> n = 7 then Exited 3 ''  out a'' ''err b \<newline>''
                       else if n = 1 then Raised ''boom'' else Exited 0 '' hi '' []),
        smtp := (\<lambda>n message. if n = 0 then Some ''smtp down'' else None)\<rparr>"

definition nothing_to_commit_world :: world where
  "nothing_to_commit_world =
     calm_world
       \<lparr>popen := (\<lambda>n cmd. if n = 1 then Exited 1 ''nothing to commit'' [] else Exited 0 [] [])\<rparr>"

definition one_failure_world :: world where
  "one_failure_world =
     calm_world
       \<lparr>popen := (\<lambda>n cmd. if n = 15 then Exited 1 [] ''repository is locked''
                       else Exited 0 [] [])\<rparr>"

section \<open>Basic facts\<close>

lemma str_nat_decimal: "foldl (\<lambda>a c. 10 * a + (of_char c - 48)) 0 (str_nat n) = n"
proof (induction n rule: str_nat.induct)
  case (1 n)
  show ?case
  proof (cases "n < 10")
    case True
    then have "n \<in> {0, 1, 2, 3, 4, 5, 6, 7, 8, 9}" by auto
    then show ?thesis
      by (subst str_nat.simps) (auto simp: digit_def)
  next
    case False
    have d: "of_char (digit (n mod 10)) - 48 = n mod 10"
    proof -
      have "n mod 10 < 10" by simp
      then have "48 + n mod 10 < 256" by linarith
      then show ?thesis by (simp add: digit_def)
    qed
    show ?thesis
      using False "1.IH" d by (subst str_nat.simps) simp
  qed
qed

lemma and_then_ret [simp]: "and_then m (\<lambda>x. ret (f x)) s = (map_sum id f (fst (m s)), snd (m s))"
  by (cases "m s"; cases "fst (m s)") (auto simp: and_then_def ret_def)

lemma sh_calls:
  "calls (snd (sh w cmd check i e s)) =
     calls s @ [\<lparr>inv_args = cmd, inv_stdin = i, inv_env = e\<rparr>]"
  by (simp add: sh_def Let_def split: proc_result.split)

lemma sh_errors: "errors (snd (sh w cmd check i e s)) = errors s"
  by (simp add: sh_def Let_def split: proc_result.split)

lemma sh_mails: "mails (snd (sh w cmd check i e s)) = mails s"
  by (simp add: sh_def Let_def split: proc_result.split)

lemma sh_no_escape: "\<not> escapes (sh w cmd check i e s)"
  by (simp add: sh_def escapes_def Let_def split: proc_result.split)

lemma mset_shuffle_from: "i < length x \<Longrightarrow> mset (shuffle_from rb i x) = mset x"
proof (induction i arbitrary: x)
  case 0
  then show ?case by simp
next
  case (Suc i)
  let ?j = "rb (Suc i + 1) mod (Suc i + 1)"
  have "?j < Suc i + 1" by (rule mod_less_divisor) simp
  then have j: "?j < length x" using Suc.prems by linarith
  have "mset (x[Suc i := x ! ?j, ?j := x ! Suc i]) = mset x"
    using j Suc.prems by (rule mset_swap)
  moreover have "i < length (x[Suc i := x ! ?j, ?j := x ! Suc i])"
    using Suc.prems by simp
  ultimately show ?case using Suc.IH by (simp add: Let_def)
qed

lemma mset_shuffle: "mset (shuffle rb x) = mset x"
  by (cases x) (simp_all add: shuffle_def mset_shuffle_from)

lemma wb_ret: "well_behaved (ret x)"
  by (simp add: well_behaved_def ret_def escapes_def)

lemma wb_sh: "well_behaved (sh w cmd check i e)"
  by (simp add: well_behaved_def sh_no_escape sh_mails sh_errors)

lemma wb_and_then:
  assumes "well_behaved m" and "\<And>x. well_behaved (f x)"
  shows "well_behaved (and_then m f)"
  unfolding well_behaved_def
proof (intro allI)
  fix s
  obtain r s1 where ms: "m s = (r, s1)" by (cases "m s")
  have m1: "\<not> escapes (m s)" "mails s1 = mails s" "prefix (errors s) (errors s1)"
    using assms(1) ms unfolding well_behaved_def by (metis snd_conv)+
  show "\<not> escapes (and_then m f s) \<and> mails (snd (and_then m f s)) = mails s \<and>
        prefix (errors s) (errors (snd (and_then m f s)))"
  proof (cases r)
    case (Inl e)
    then show ?thesis using ms m1 by (simp add: and_then_def escapes_def)
  next
    case (Inr x)
    have fx: "\<not> escapes (f x s1)" "mails (snd (f x s1)) = mails s1"
      "prefix (errors s1) (errors (snd (f x s1)))"
      using assms(2)[of x] unfolding well_behaved_def by blast+
    have "and_then m f s = f x s1" using ms Inr by (simp add: and_then_def)
    then show ?thesis using fx m1 by (auto intro: prefix_order.trans)
  qed
qed

lemma try_task_returns: "\<not> escapes (task s) \<Longrightarrow> fst (try_task task s) = Inr ()"
  by (cases "task s"; cases "fst (task s)"; cases "projl (fst (task s))")
     (auto simp: try_task_def escapes_def)

lemma try_task_errors:
  "errors (snd (try_task task s)) =
     errors (snd (task s)) @
       (case fst (task s) of
          Inr u \<Rightarrow> []
        | Inl (ShellError m) \<Rightarrow> [Str m]
        | Inl (OtherException t) \<Rightarrow> [ExcObj (OtherException t)]
        | Inl (NonException t) \<Rightarrow> [])"
  by (cases "task s"; cases "fst (task s)"; cases "projl (fst (task s))")
     (auto simp: try_task_def)

lemma try_task_mails: "mails (snd (try_task task s)) = mails (snd (task s))"
  by (cases "task s"; cases "fst (task s)"; cases "projl (fst (task s))")
     (auto simp: try_task_def)

lemma try_task_calls: "calls (snd (try_task task s)) = calls (snd (task s))"
  by (cases "task s"; cases "fst (task s)"; cases "projl (fst (task s))")
     (auto simp: try_task_def)

lemma wb_try_task:
  assumes "well_behaved task"
  shows "well_behaved (try_task task)"
  unfolding well_behaved_def
proof (intro allI conjI)
  fix s
  have t: "\<not> escapes (task s)" "mails (snd (task s)) = mails s"
    "prefix (errors s) (errors (snd (task s)))"
    using assms unfolding well_behaved_def by blast+
  show "\<not> escapes (try_task task s)"
    using try_task_returns[of task s] t(1) by (simp add: escapes_def)
  show "mails (snd (try_task task s)) = mails s"
    using t(2) by (simp add: try_task_mails)
  show "prefix (errors s) (errors (snd (try_task task s)))"
    using t(3) by (simp add: try_task_errors prefix_prefix)
qed

lemma wb_backup_windows_dir: "well_behaved (backup_windows_dir w dir)"
  unfolding backup_windows_dir_def Let_def by (intro wb_and_then wb_sh wb_ret)

lemma wb_backup_aws: "well_behaved (backup_aws w)"
  unfolding backup_aws_def Let_def by (intro wb_and_then wb_sh wb_ret)

lemma wb_choco_upgrade: "well_behaved (choco_upgrade w)"
  unfolding choco_upgrade_def by (intro wb_and_then wb_sh wb_ret)

lemma wb_wsl_upgrade: "well_behaved (wsl_upgrade w)"
  unfolding wsl_upgrade_def by (intro wb_and_then wb_sh wb_ret)

lemma wb_backup_wsl: "well_behaved (backup_wsl w)"
  unfolding backup_wsl_def Let_def by (intro wb_and_then wb_sh wb_ret)

lemma wb_check_restic_integrity: "well_behaved (check_restic_integrity w)"
  unfolding check_restic_integrity_def Let_def by (intro wb_and_then wb_sh wb_ret)

lemma wb_commit_notes: "well_behaved (commit_notes w)"
proof -
  let ?body = "and_then (sh w [''git'', ''add'', ''.''] True None None) (\<lambda>_.
      and_then (sh w [''git'', ''commit'', ''-m'', ''Update '' @ ctime w] False None None)
        (\<lambda>_. ret ()))"
  have b: "well_behaved ?body" by (intro wb_and_then wb_sh wb_ret)
  show ?thesis
    unfolding well_behaved_def
  proof (intro allI)
    fix s :: state
    let ?s1 = "s\<lparr>cwd := Some (home_path w [''Documents'', ''notes''])\<rparr>"
    have "\<not> escapes (?body ?s1) \<and> mails (snd (?body ?s1)) = mails ?s1 \<and>
          prefix (errors ?s1) (errors (snd (?body ?s1)))"
      using b unfolding well_behaved_def by blast
    then show "\<not> escapes (commit_notes w s) \<and> mails (snd (commit_notes w s)) = mails s \<and>
        prefix (errors s) (errors (snd (commit_notes w s)))"
      by (cases "chdir w (home_path w [''Documents'', ''notes''])")
         (simp_all add: commit_notes_def Let_def escapes_def)
  qed
qed

lemma wb_backup_c_drive_loop: "well_behaved (backup_c_drive_loop w ds)"
proof (induction ds)
  case Nil
  show ?case by (simp add: wb_ret)
next
  case (Cons d ds)
  show ?case
    unfolding backup_c_drive_loop.simps Let_def
    by (intro wb_and_then wb_try_task wb_backup_windows_dir Cons.IH)
qed

lemma wb_backup_c_drive: "well_behaved (backup_c_drive w)"
  by (simp add: backup_c_drive_def Let_def wb_backup_c_drive_loop)

lemma wb_step:
  assumes "well_behaved task"
  shows "\<exists>s'. try_task task s = (Inr (), s') \<and> mails s' = mails s \<and>
           prefix (errors s) (errors s')"
proof -
  have "well_behaved (try_task task)" using assms by (rule wb_try_task)
  then have "mails (snd (try_task task s)) = mails s"
    "prefix (errors s) (errors (snd (try_task task s)))"
    unfolding well_behaved_def by blast+
  moreover have "fst (try_task task s) = Inr ()"
    using assms try_task_returns unfolding well_behaved_def by blast
  ultimately show ?thesis by (metis prod.collapse)
qed

lemma and_then_try_task:
  "\<not> escapes (task s) \<Longrightarrow> and_then (try_task task) f s = f () (snd (try_task task s))"
  using try_task_returns[of task s]
  by (cases "try_task task s") (simp add: and_then_def)

lemma backup_windows_dir_calls:
  "calls (snd (backup_windows_dir w dir s)) =
     calls s @
       [\<lparr>inv_args = [''restic''] @ RESTIC_DEFAULT_ARGS @
                     [''backup'', dir, ''--use-fs-snapshot'', ''--tag'', ''Windows''],
         inv_stdin = None,
         inv_env = Some (fold (\<lambda>(var, val) e. AList.update var val e) RESTIC_ENV_VARS
                           (environ w))\<rparr>]"
  by (simp add: backup_windows_dir_def Let_def sh_calls)

lemma backup_windows_dir_no_escape: "\<not> escapes (backup_windows_dir w dir s)"
  using wb_backup_windows_dir[of w dir] unfolding well_behaved_def by blast

lemma backup_c_drive_loop_run:
  "fst (backup_c_drive_loop w ds s) = Inr () \<and>
   calls (snd (backup_c_drive_loop w ds s)) =
     calls s @
       map (\<lambda>d. \<lparr>inv_args = [''restic''] @ RESTIC_DEFAULT_ARGS @
                     [''backup'', home_path w [d], ''--use-fs-snapshot'', ''--tag'', ''Windows''],
                  inv_stdin = None,
                  inv_env = Some (fold (\<lambda>(var, val) e. AList.update var val e) RESTIC_ENV_VARS
                                    (environ w))\<rparr>) ds"
proof (induction ds arbitrary: s)
  case Nil
  show ?case by (simp add: ret_def)
next
  case (Cons d ds)
  let ?t = "backup_windows_dir w (home_path w [d])"
  have step: "backup_c_drive_loop w (d # ds) s = backup_c_drive_loop w ds (snd (try_task ?t s))"
    by (simp add: Let_def and_then_try_task backup_windows_dir_no_escape)
  have "calls (snd (try_task ?t s)) = calls (snd (?t s))" by (rule try_task_calls)
  then show ?case
    unfolding step using Cons.IH[of "snd (try_task ?t s)"]
    by (simp add: backup_windows_dir_calls)
qed

subsection \<open>The orchestrator, task by task\<close>

lemma do_backup_windows_chain:
  "\<exists>a b c d e f g.
     try_task (commit_notes w) (s\<lparr>errors := []\<rparr>) = (Inr (), a) \<and>
     try_task (backup_aws w) a = (Inr (), b) \<and>
     try_task (choco_upgrade w) b = (Inr (), c) \<and>
     try_task (wsl_upgrade w) c = (Inr (), d) \<and>
     try_task (backup_c_drive w) d = (Inr (), e) \<and>
     try_task (backup_wsl w) e = (Inr (), f) \<and>
     try_task (check_restic_integrity w) f = (Inr (), g) \<and>
     prefix (errors a) (errors b) \<and> prefix (errors b) (errors c) \<and>
     prefix (errors c) (errors d) \<and> prefix (errors d) (errors e) \<and>
     prefix (errors e) (errors f) \<and> prefix (errors f) (errors g) \<and>
     mails g = mails s \<and>
     do_backup_windows w s =
       (if length (errors g) = 0
        then notify w ''Backup succeeded'' (Str ''Hope you're having a nice day :)'') g
        else notify w
          (''Backup failed! '' @ str_int (int (length (errors g))) @ '' error'' @
             (if length (errors g) = 1 then [] else ''s''))
          (Str (strip (concat (map py_str (errors g))))) g)"
proof -
  obtain a where a: "try_task (commit_notes w) (s\<lparr>errors := []\<rparr>) = (Inr (), a)"
    "mails a = mails s"
    using wb_step[OF wb_commit_notes, of w "s\<lparr>errors := []\<rparr>"] by auto
  obtain b where b: "try_task (backup_aws w) a = (Inr (), b)" "mails b = mails a"
    "prefix (errors a) (errors b)"
    using wb_step[OF wb_backup_aws, of w a] by auto
  obtain c where c: "try_task (choco_upgrade w) b = (Inr (), c)" "mails c = mails b"
    "prefix (errors b) (errors c)"
    using wb_step[OF wb_choco_upgrade, of w b] by auto
  obtain d where d: "try_task (wsl_upgrade w) c = (Inr (), d)" "mails d = mails c"
    "prefix (errors c) (errors d)"
    using wb_step[OF wb_wsl_upgrade, of w c] by auto
  obtain e where e: "try_task (backup_c_drive w) d = (Inr (), e)" "mails e = mails d"
    "prefix (errors d) (errors e)"
    using wb_step[OF wb_backup_c_drive, of w d] by auto
  obtain f where f: "try_task (backup_wsl w) e = (Inr (), f)" "mails f = mails e"
    "prefix (errors e) (errors f)"
    using wb_step[OF wb_backup_wsl, of w e] by auto
  obtain g where g: "try_task (check_restic_integrity w) f = (Inr (), g)" "mails g = mails f"
    "prefix (errors f) (errors g)"
    using wb_step[OF wb_check_restic_integrity, of w f] by auto
  have m: "mails g = mails s" using a b c d e f g by simp
  have r: "do_backup_windows w s =
       (if length (errors g) = 0
        then notify w ''Backup succeeded'' (Str ''Hope you're having a nice day :)'') g
        else notify w
          (''Backup failed! '' @ str_int (int (length (errors g))) @ '' error'' @
             (if length (errors g) = 1 then [] else ''s''))
          (Str (strip (concat (map py_str (errors g))))) g)"
    unfolding do_backup_windows_def and_then_def
    by (simp only: a b c d e f g split_conv sum.case Let_def)
  show ?thesis
    using a(1) b(1,3) c(1,3) d(1,3) e(1,3) f(1,3) g(1,3) m r by blast
qed

lemma notify_result:
  "\<exists>d. snd (notify w subject msg s) =
         s\<lparr>mails := mails s @ [\<lparr>mail_subject = subject, mail_msg = py_str msg, delivered = d\<rparr>]\<rparr> \<and>
       (d \<longrightarrow> fst (notify w subject msg s) = Inr ()) \<and>
       (\<not> d \<longrightarrow> (\<exists>t. fst (notify w subject msg s) = Inl (OtherException t)))"
proof (cases "smtp w (length (mails s)) (''Subject: '' @ subject @ [CHR 0x0A, CHR 0x0A] @ py_str msg)")
  case None
  then show ?thesis by (intro exI[of _ True]) (simp add: notify_def Let_def)
next
  case (Some t)
  then show ?thesis by (intro exI[of _ False]) (simp add: notify_def Let_def)
qed

lemma notify_outcome:
  "snd (notify w subject msg s) =
     s\<lparr>mails := mails s @
        [\<lparr>mail_subject = subject, mail_msg = py_str msg,
          delivered =
            (smtp w (length (mails s))
               (''Subject: '' @ subject @ [CHR 0x0A, CHR 0x0A] @ py_str msg) = None)\<rparr>]\<rparr> \<and>
   fst (notify w subject msg s) =
     (case smtp w (length (mails s))
             (''Subject: '' @ subject @ [CHR 0x0A, CHR 0x0A] @ py_str msg) of
        None \<Rightarrow> Inr () | Some t \<Rightarrow> Inl (OtherException t))"
  by (cases "smtp w (length (mails s)) (''Subject: '' @ subject @ [CHR 0x0A, CHR 0x0A] @ py_str msg)")
     (simp_all add: notify_def Let_def)

lemma notify_errors: "errors (snd (notify w subject msg s)) = errors s"
  using notify_result[of w subject msg s] by auto

lemma do_backup_windows_report:
  "\<exists>s1. mails s1 = mails s \<and>
     do_backup_windows w s =
       (if length (errors s1) = 0
        then notify w ''Backup succeeded'' (Str ''Hope you're having a nice day :)'') s1
        else notify w
          (''Backup failed! '' @ str_int (int (length (errors s1))) @ '' error'' @
             (if length (errors s1) = 1 then [] else ''s''))
          (Str (strip (concat (map py_str (errors s1))))) s1)"
  using do_backup_windows_chain[of w s] by blast

lemma do_backup_windows_mail:
  "\<exists>d s1. mails s1 = mails s \<and>
     snd (do_backup_windows w s) =
       s1\<lparr>mails := mails s @
         [\<lparr>mail_subject =
             (if errors s1 = [] then ''Backup succeeded''
              else ''Backup failed! '' @ str_int (int (length (errors s1))) @ '' error'' @
                   (if length (errors s1) = 1 then [] else ''s'')),
           mail_msg =
             (if errors s1 = [] then ''Hope you're having a nice day :)''
              else strip (concat (map py_str (errors s1)))),
           delivered = d\<rparr>]\<rparr> \<and>
     (d \<longrightarrow> fst (do_backup_windows w s) = Inr ()) \<and>
     (\<not> d \<longrightarrow> (\<exists>t. fst (do_backup_windows w s) = Inl (OtherException t)))"
proof -
  obtain s1 where s1: "mails s1 = mails s" and
    r: "do_backup_windows w s =
       (if length (errors s1) = 0
        then notify w ''Backup succeeded'' (Str ''Hope you're having a nice day :)'') s1
        else notify w
          (''Backup failed! '' @ str_int (int (length (errors s1))) @ '' error'' @
             (if length (errors s1) = 1 then [] else ''s''))
          (Str (strip (concat (map py_str (errors s1))))) s1)"
    using do_backup_windows_report[of s w] by blast
  let ?subject = "if errors s1 = [] then ''Backup succeeded''
              else ''Backup failed! '' @ str_int (int (length (errors s1))) @ '' error'' @
                   (if length (errors s1) = 1 then [] else ''s'')"
  let ?msg = "if errors s1 = [] then ''Hope you're having a nice day :)''
              else strip (concat (map py_str (errors s1)))"
  have "do_backup_windows w s = notify w ?subject (Str ?msg) s1"
    using r by (cases "errors s1 = []") simp_all
  moreover obtain d where
    "snd (notify w ?subject (Str ?msg) s1) =
       s1\<lparr>mails := mails s1 @ [\<lparr>mail_subject = ?subject, mail_msg = ?msg, delivered = d\<rparr>]\<rparr>"
    "d \<longrightarrow> fst (notify w ?subject (Str ?msg) s1) = Inr ()"
    "\<not> d \<longrightarrow> (\<exists>t. fst (notify w ?subject (Str ?msg) s1) = Inl (OtherException t))"
    using notify_result[of w ?subject "Str ?msg" s1] unfolding py_str.simps by blast
  ultimately show ?thesis using s1 by (intro exI[of _ d] exI[of _ s1]) simp
qed

lemma do_backup_windows_notifies:
  "\<exists>s1 subject msg. mails s1 = mails s \<and> do_backup_windows w s = notify w subject msg s1"
  using do_backup_windows_report[of s w] by metis

subsection \<open>Runs in the example worlds\<close>

lemma git_add_repr: "repr_list [''git'', ''add'', ''.''] = ''['git', 'add', '.']''"
  by (simp add: repr_list_def repr_str_def repr_char_def isprintable_def Let_def)

lemma str_int_3: "str_int 3 = ''3''"
  by code_simp

lemma strip_ex1: "strip ''  out a'' = ''out a''"
  by (simp add: strip_def isspace_def Let_def)

lemma strip_ex2: "strip ''err b \<newline>'' = ''err b''"
  by (simp add: strip_def isspace_def Let_def)

lemma str_int_1: "str_int 1 = ''1''"
  by code_simp

lemma shuffled_calm: "shuffle (randbelow calm_world) BACKUP_DIRS =
  [''Pictures'', ''Music'', ''Videos'', ''build'', ''AppData/Roaming'', ''VirtualBox VMs'', ''Documents'']"
  by code_simp

lemma shuffled_rough: "shuffle (randbelow rough_world) BACKUP_DIRS =
  [''Pictures'', ''Music'', ''Videos'', ''build'', ''AppData/Roaming'', ''VirtualBox VMs'', ''Documents'']"
  by code_simp

lemma calm_sel:
  "popen calm_world n c = Exited 0 [] []" "chdir calm_world p = None"
  by (simp_all add: calm_world_def)

lemma rough_sel:
  "popen rough_world n c =
     (if n = 0 \<or> n = 7 then Exited 3 ''  out a'' ''err b \<newline>''
      else if n = 1 then Raised ''boom'' else Exited 0 '' hi '' [])"
  "chdir rough_world p = None"
  by (simp_all add: rough_world_def calm_world_def)

lemma nothing_to_commit_sel:
  "popen nothing_to_commit_world n c =
     (if n = 1 then Exited 1 ''nothing to commit'' [] else Exited 0 [] [])"
  "chdir nothing_to_commit_world p = None"
  by (simp_all add: nothing_to_commit_world_def calm_world_def)

lemma one_failure_sel:
  "popen one_failure_world n c =
     (if n = 15 then Exited 1 [] ''repository is locked'' else Exited 0 [] [])"
  "chdir one_failure_world p = None"
  by (simp_all add: one_failure_world_def calm_world_def)

lemma shuffled_one: "shuffle (randbelow one_failure_world) BACKUP_DIRS =
  [''Pictures'', ''Music'', ''Videos'', ''build'', ''AppData/Roaming'', ''VirtualBox VMs'', ''Documents'']"
  by code_simp

lemma calm_errors: "errors (snd (do_backup_windows calm_world start)) = []"
  by (simp add: do_backup_windows_def and_then_def try_task_def commit_notes_def backup_aws_def
      choco_upgrade_def wsl_upgrade_def backup_c_drive_def backup_wsl_def
      check_restic_integrity_def backup_windows_dir_def sh_def ret_def notify_errors
      Let_def calm_sel start_def shuffled_calm)

lemma rough_errors: "length (errors (snd (do_backup_windows rough_world start))) = 3"
  by (simp add: do_backup_windows_def and_then_def try_task_def commit_notes_def backup_aws_def
      choco_upgrade_def wsl_upgrade_def backup_c_drive_def backup_wsl_def
      check_restic_integrity_def backup_windows_dir_def sh_def ret_def notify_errors
      Let_def rough_sel start_def shuffled_rough)

lemma one_failure_errors: "length (errors (snd (do_backup_windows one_failure_world start))) = 1"
  by (simp add: do_backup_windows_def and_then_def try_task_def commit_notes_def backup_aws_def
      choco_upgrade_def wsl_upgrade_def backup_c_drive_def backup_wsl_def
      check_restic_integrity_def backup_windows_dir_def sh_def ret_def notify_errors
      Let_def one_failure_sel start_def shuffled_one)

lemma shuffled_nothing_to_commit:
  "shuffle (randbelow nothing_to_commit_world) BACKUP_DIRS =
     [''Pictures'', ''Music'', ''Videos'', ''build'', ''AppData/Roaming'', ''VirtualBox VMs'',
      ''Documents'']"
  by code_simp

lemma nothing_to_commit_errors:
  "errors (snd (do_backup_windows nothing_to_commit_world start)) = []"
  by (simp add: do_backup_windows_def and_then_def try_task_def commit_notes_def backup_aws_def
      choco_upgrade_def wsl_upgrade_def backup_c_drive_def backup_wsl_def
      check_restic_integrity_def backup_windows_dir_def sh_def ret_def notify_errors
      Let_def nothing_to_commit_sel start_def shuffled_nothing_to_commit)

section \<open>The claims\<close>

text \<open>
  C1. A run of the script, from any state and in any world, starts one mail session when
  the report of \<open>do_backup_windows\<close> is sent, and then ends normally. When that first
  session fails, the handler of the \<^verbatim>\<open>__main__\<close> block starts exactly one more, with
  subject \<^verbatim>\<open>Backup failed: 1 error\<close> and the text of the first failure as its message; the
  run ends normally when that one is sent and with the second failure otherwise, in which
  case nothing was delivered. \<open>m1\<close> and \<open>m2\<close> are the sessions the run adds to \<open>mails\<close>.
\<close>

theorem notifications_per_run:
  "\<exists>m1.
     (delivered m1 \<longleftrightarrow>
        smtp w (length (mails s))
          (''Subject: '' @ mail_subject m1 @ [CHR 0x0A, CHR 0x0A] @ mail_msg m1) = None) \<and>
     (if delivered m1
      then mails (snd (main w s)) = mails s @ [m1] \<and> fst (main w s) = Inr ()
      else \<exists>m2.
             mails (snd (main w s)) = mails s @ [m1, m2] \<and>
             mail_subject m2 = ''Backup failed: 1 error'' \<and>
             smtp w (length (mails s))
               (''Subject: '' @ mail_subject m1 @ [CHR 0x0A, CHR 0x0A] @ mail_msg m1) =
               Some (mail_msg m2) \<and>
             (delivered m2 \<longleftrightarrow>
                smtp w (Suc (length (mails s)))
                  (''Subject: '' @ mail_subject m2 @ [CHR 0x0A, CHR 0x0A] @ mail_msg m2) = None) \<and>
             (if delivered m2 then fst (main w s) = Inr ()
              else \<exists>t. fst (main w s) = Inl (OtherException t)))"
proof -
  obtain s1 subject msg where s1: "mails s1 = mails s" and
    r: "do_backup_windows w s = notify w subject msg s1"
    using do_backup_windows_notifies[of s w] by blast
  let ?x1 = "smtp w (length (mails s)) (''Subject: '' @ subject @ [CHR 0x0A, CHR 0x0A] @ py_str msg)"
  let ?m1 = "\<lparr>mail_subject = subject, mail_msg = py_str msg, delivered = (?x1 = None)\<rparr>"
  have st: "snd (do_backup_windows w s) = s1\<lparr>mails := mails s @ [?m1]\<rparr>"
    and ft: "fst (do_backup_windows w s) =
      (case ?x1 of None \<Rightarrow> Inr () | Some t \<Rightarrow> Inl (OtherException t))"
    unfolding r using notify_outcome[of w subject msg s1] s1 by simp_all
  show ?thesis
  proof (cases ?x1)
    case None
    then have "fst (do_backup_windows w s) = Inr ()" using ft by simp
    then have "main w s = (Inr (), snd (do_backup_windows w s))"
      by (cases "do_backup_windows w s") (simp add: main_def)
    then show ?thesis
      using st None by (intro exI[of _ ?m1]) simp
  next
    case (Some t)
    then have t: "fst (do_backup_windows w s) = Inl (OtherException t)" using ft by simp
    let ?s2 = "snd (do_backup_windows w s)"
    let ?e = "ExcObj (OtherException t)"
    have l2: "length (mails ?s2) = Suc (length (mails s))" using st by simp
    let ?x2 = "smtp w (Suc (length (mails s)))
        (''Subject: '' @ ''Backup failed: 1 error'' @ [CHR 0x0A, CHR 0x0A] @ py_str ?e)"
    let ?m2 = "\<lparr>mail_subject = ''Backup failed: 1 error'', mail_msg = py_str ?e,
                delivered = (?x2 = None)\<rparr>"
    have mn: "main w s = notify w ''Backup failed: 1 error'' ?e ?s2"
      using t by (cases "do_backup_windows w s") (simp add: main_def)
    have n2: "snd (main w s) = ?s2\<lparr>mails := mails ?s2 @ [?m2]\<rparr>"
      "fst (main w s) = (case ?x2 of None \<Rightarrow> Inr () | Some u \<Rightarrow> Inl (OtherException u))"
      unfolding mn using notify_outcome[of w "''Backup failed: 1 error''" ?e ?s2] l2
      by simp_all
    have ms: "mails (snd (main w s)) = mails s @ [?m1, ?m2]"
      unfolding n2(1) using st by simp
    have inner: "\<exists>m2.
             mails (snd (main w s)) = mails s @ [?m1, m2] \<and>
             mail_subject m2 = ''Backup failed: 1 error'' \<and>
             ?x1 = Some (mail_msg m2) \<and>
             (delivered m2 \<longleftrightarrow>
                smtp w (Suc (length (mails s)))
                  (''Subject: '' @ mail_subject m2 @ [CHR 0x0A, CHR 0x0A] @ mail_msg m2) = None) \<and>
             (if delivered m2 then fst (main w s) = Inr ()
              else \<exists>t. fst (main w s) = Inl (OtherException t))"
      using ms n2(2) Some by (intro exI[of _ ?m2]) (cases ?x2; simp)
    show ?thesis
      using inner Some by (intro exI[of _ ?m1]) simp
  qed
qed

theorem notifications_per_run_witness:
  "length (mails (snd (main rough_world start))) = 2 \<and>
   map delivered (mails (snd (main rough_world start))) = [False, True] \<and>
   mail_subject (mails (snd (main rough_world start)) ! 1) = ''Backup failed: 1 error'' \<and>
   mail_msg (mails (snd (main rough_world start)) ! 1) = ''smtp down'' \<and>
   fst (main rough_world start) = Inr () \<and>
   length (mails (snd (main calm_world start))) = 1 \<and>
   map delivered (mails (snd (main calm_world start))) = [True] \<and>
   fst (main calm_world start) = Inr ()"
proof -
  have a: "smtp rough_world 0 x = Some ''smtp down''" "smtp rough_world (Suc 0) x = None"
    "smtp calm_world 0 x = None" for x
    by (simp_all add: rough_world_def calm_world_def)
  have b: "mails start = []" by (simp add: start_def)
  show ?thesis
    using notifications_per_run[of rough_world start] notifications_per_run[of calm_world start]
    by (auto simp: a b)
qed

text \<open>
  C2. When the error list is not empty after the tasks (N entries, one for each wrapped
  task that failed), the report of \<open>do_backup_windows\<close> has the subject
  \<^verbatim>\<open>Backup failed! N error\<close>, with an \<^verbatim>\<open>s\<close> appended unless N is 1 (so
  \<^verbatim>\<open>Backup failed! 1 error\<close> for one entry), and its message is the
  texts of all entries, concatenated in order, with the surrounding whitespace of the
  whole removed. The error list of the final state is the one the report was built from:
  \<open>notify\<close> does not touch it.
\<close>

theorem failure_report:
  "errors (snd (do_backup_windows w s)) \<noteq> [] \<longrightarrow>
     (\<exists>d. mails (snd (do_backup_windows w s)) =
        mails s @
          [\<lparr>mail_subject =
              ''Backup failed! '' @
              str_int (int (length (errors (snd (do_backup_windows w s))))) @ '' error'' @
              (if length (errors (snd (do_backup_windows w s))) = 1 then [] else ''s''),
            mail_msg = strip (concat (map py_str (errors (snd (do_backup_windows w s))))),
            delivered = d\<rparr>]) \<and>
     (length (errors (snd (do_backup_windows w s))) = 1 \<longrightarrow>
        map mail_subject (drop (length (mails s)) (mails (snd (do_backup_windows w s)))) =
          [''Backup failed! 1 error''])"
proof -
  have "errors (snd (do_backup_windows w s)) \<noteq> [] \<Longrightarrow>
     (\<exists>d. mails (snd (do_backup_windows w s)) =
        mails s @
          [\<lparr>mail_subject =
              ''Backup failed! '' @
              str_int (int (length (errors (snd (do_backup_windows w s))))) @ '' error'' @
              (if length (errors (snd (do_backup_windows w s))) = 1 then [] else ''s''),
            mail_msg = strip (concat (map py_str (errors (snd (do_backup_windows w s))))),
            delivered = d\<rparr>])"
    using do_backup_windows_mail[of s w] by auto
  then show ?thesis by (auto simp: str_int_1)
qed

theorem failure_report_witness:
  "errors (snd (do_backup_windows rough_world start)) \<noteq> [] \<and>
   map mail_subject (mails (snd (do_backup_windows rough_world start))) =
     [''Backup failed! 3 errors''] \<and>
   map mail_msg (mails (snd (do_backup_windows rough_world start))) =
     [strip (concat (map py_str (errors (snd (do_backup_windows rough_world start)))))] \<and>
   length (errors (snd (do_backup_windows one_failure_world start))) = 1 \<and>
   map mail_subject (mails (snd (do_backup_windows one_failure_world start))) =
     [''Backup failed! 1 error'']"
proof -
  have n: "errors (snd (do_backup_windows rough_world start)) \<noteq> []"
    "errors (snd (do_backup_windows one_failure_world start)) \<noteq> []"
    using rough_errors one_failure_errors by auto
  have m: "mails start = []" by (simp add: start_def)
  show ?thesis
    using failure_report[of rough_world start] failure_report[of one_failure_world start] n
    by (auto simp: rough_errors one_failure_errors m str_int_3)
qed

text \<open>
  C3, as amended. When the task function returns, or raises an exception of class
  \<^verbatim>\<open>Exception\<close>, the task wrapper returns normally: for a \<open>ShellError\<close> its message is
  appended to the error list, for any other \<^verbatim>\<open>Exception\<close> the exception object is
  appended (its text is read with \<^verbatim>\<open>str()\<close> when the report is built), and when the task
  returns nothing is appended. Everything else the task did to the state stays. An
  exception outside class \<^verbatim>\<open>Exception\<close> leaves the wrapper as it came, and nothing is
  appended for it.
\<close>

theorem try_task_catches_exceptions:
  "((\<forall>e. fst (task s) = Inl e \<longrightarrow> is_Exception e) \<longrightarrow>
      fst (try_task task s) = Inr () \<and>
      (\<forall>m. fst (task s) = Inl (ShellError m) \<longrightarrow>
         snd (try_task task s) = (snd (task s))\<lparr>errors := errors (snd (task s)) @ [Str m]\<rparr>) \<and>
      (\<forall>t. fst (task s) = Inl (OtherException t) \<longrightarrow>
         snd (try_task task s) =
           (snd (task s))\<lparr>errors := errors (snd (task s)) @ [ExcObj (OtherException t)]\<rparr>) \<and>
      (\<forall>u. fst (task s) = Inr u \<longrightarrow> snd (try_task task s) = snd (task s))) \<and>
   (\<forall>t. fst (task s) = Inl (NonException t) \<longrightarrow>
      try_task task s = (Inl (NonException t), snd (task s)))"
  by (cases "task s"; cases "fst (task s)"; cases "projl (fst (task s))")
     (auto simp: try_task_def)

theorem try_task_catches_exceptions_witness:
  "try_task (throw (ShellError ''git failed'')) start = (Inr (), start\<lparr>errors := [Str ''git failed'']\<rparr>) \<and>
   try_task (throw (OtherException ''[WinError 2]'')) start =
     (Inr (), start\<lparr>errors := [ExcObj (OtherException ''[WinError 2]'')]\<rparr>) \<and>
   try_task (ret ()) start = (Inr (), start)"
proof -
  have a: "fst (throw (ShellError ''git failed'') start) = Inl (ShellError ''git failed'')"
    "snd (throw (ShellError ''git failed'') start) = start"
    "fst (throw (OtherException ''[WinError 2]'') start) = Inl (OtherException ''[WinError 2]'')"
    "snd (throw (OtherException ''[WinError 2]'') start) = start"
    "fst (ret () start) = Inr ()" "snd (ret () start) = start"
    by (simp_all add: throw_def ret_def)
  have e: "errors start = []" by (simp add: start_def)
  show ?thesis
    using try_task_catches_exceptions[of "throw (ShellError ''git failed'')" start]
      try_task_catches_exceptions[of "throw (OtherException ''[WinError 2]'')" start]
      try_task_catches_exceptions[of "ret ()" start]
    by (simp add: a e prod_eq_iff)
qed

text \<open>
  C3, as first stated, fails: an exception outside class \<^verbatim>\<open>Exception\<close>, such as the
  \<^verbatim>\<open>SystemExit\<close> of \<^verbatim>\<open>sys.exit(1)\<close>, passes through both \<^verbatim>\<open>except\<close> clauses of the
  wrapper, which then does not return normally and records nothing.
\<close>

theorem try_task_lets_non_exception_through:
  "try_task (throw (NonException ''1'')) start = (Inl (NonException ''1''), start)"
  by (simp add: try_task_def throw_def)

text \<open>
  C4. The command runner. When the subprocess exits with code 0, \<open>sh\<close> returns its
  standard output with the surrounding whitespace removed, whatever \<open>check\<close> is. When it
  exits with another code and \<open>check\<close> is on, \<open>sh\<close> raises a \<open>ShellError\<close> whose message
  holds the command (as Python prints the list), the return code, and both streams, each
  with the surrounding whitespace removed.
\<close>

theorem sh_contract:
  "(popen w (length (calls s)) cmd = Exited 0 out err \<longrightarrow>
      fst (sh w cmd check i e s) = Inr (strip out)) \<and>
   (popen w (length (calls s)) cmd = Exited rc out err \<and> rc \<noteq> 0 \<longrightarrow>
      fst (sh w cmd True i e s) =
        Inl (ShellError
          (''[script] Failed to run command: '' @ repr_list cmd @ [CHR 0x0A] @
           ''[script] Return code: '' @ str_int rc @ [CHR 0x0A, CHR 0x0A] @
           ''[script] Stdout:'' @ [CHR 0x0A] @ strip out @ [CHR 0x0A] @
           ''[script] Stderr:'' @ [CHR 0x0A] @ strip err)))"
  by (simp add: sh_def Let_def)

theorem sh_contract_witness:
  "popen rough_world (length (calls start)) [''git'', ''add'', ''.''] =
     Exited 3 ''  out a'' ''err b \<newline>'' \<and>
   fst (sh rough_world [''git'', ''add'', ''.''] True None None start) =
     Inl (ShellError
       ''[script] Failed to run command: ['git', 'add', '.']\<newline>[script] Return code: 3\<newline>\<newline>[script] Stdout:\<newline>out a\<newline>[script] Stderr:\<newline>err b'') \<and>
   popen calm_world (length (calls start)) [''git'', ''add'', ''.''] = Exited 0 [] [] \<and>
   fst (sh calm_world [''git'', ''add'', ''.''] True None None start) = Inr []"
proof -
  have p: "popen rough_world (length (calls start)) [''git'', ''add'', ''.''] =
     Exited 3 ''  out a'' ''err b \<newline>''"
    by (simp add: rough_world_def calm_world_def start_def)
  have q: "popen calm_world (length (calls start)) [''git'', ''add'', ''.''] = Exited 0 [] []"
    by (simp add: calm_world_def start_def)
  have "strip [] = []" by (simp add: strip_def)
  then show ?thesis
    using p q
      sh_contract[of rough_world start "[''git'', ''add'', ''.'']" "''  out a''"
        "''err b \<newline>''" True None None 3]
      sh_contract[of calm_world start "[''git'', ''add'', ''.'']" "[]" "[]" True None None 1]
    by (simp add: git_add_repr str_int_3 strip_ex1 strip_ex2)
qed

text \<open>
  C5. The task \<open>commit_notes\<close> under the task wrapper, once the change of directory has
  succeeded. When \<^verbatim>\<open>git add\<close> exits with 0, the error list stays as it was whatever code
  \<^verbatim>\<open>git commit\<close> exits with, and both commands were run. When \<^verbatim>\<open>git add\<close> exits with
  another code, its failure message is appended to the error list.
\<close>

theorem commit_notes_error_entries:
  "chdir w (home_path w [''Documents'', ''notes'']) = None \<longrightarrow>
     (popen w (length (calls s)) [''git'', ''add'', ''.''] = Exited 0 out1 err1 \<and>
      popen w (Suc (length (calls s))) [''git'', ''commit'', ''-m'', ''Update '' @ ctime w] =
        Exited rc2 out2 err2 \<longrightarrow>
        errors (snd (try_task (commit_notes w) s)) = errors s \<and>
        map inv_args (calls (snd (try_task (commit_notes w) s))) =
          map inv_args (calls s) @
            [[''git'', ''add'', ''.''], [''git'', ''commit'', ''-m'', ''Update '' @ ctime w]]) \<and>
     (popen w (length (calls s)) [''git'', ''add'', ''.''] = Exited rc out err \<and> rc \<noteq> 0 \<longrightarrow>
        errors (snd (try_task (commit_notes w) s)) =
          errors s @
            [Str (''[script] Failed to run command: '' @ repr_list [''git'', ''add'', ''.''] @
                  [CHR 0x0A] @
                  ''[script] Return code: '' @ str_int rc @ [CHR 0x0A, CHR 0x0A] @
                  ''[script] Stdout:'' @ [CHR 0x0A] @ strip out @ [CHR 0x0A] @
                  ''[script] Stderr:'' @ [CHR 0x0A] @ strip err)])"
  by (simp add: try_task_def commit_notes_def and_then_def sh_def ret_def Let_def)

theorem commit_notes_error_entries_witness:
  "errors (snd (try_task (commit_notes rough_world) start)) =
     [Str ''[script] Failed to run command: ['git', 'add', '.']\<newline>[script] Return code: 3\<newline>\<newline>[script] Stdout:\<newline>out a\<newline>[script] Stderr:\<newline>err b''] \<and>
   errors (snd (try_task (commit_notes nothing_to_commit_world) start)) = [] \<and>
   map inv_args (calls (snd (try_task (commit_notes nothing_to_commit_world) start))) =
     [[''git'', ''add'', ''.''],
      [''git'', ''commit'', ''-m'', ''Update '' @ ctime nothing_to_commit_world]]"
proof -
  have s: "calls start = []" "errors start = []" by (simp_all add: start_def)
  show ?thesis
    using commit_notes_error_entries[of rough_world start "[]" "[]" 0 "[]" "[]" 3
        "''  out a''" "''err b \<newline>''"]
      commit_notes_error_entries[of nothing_to_commit_world start "[]" "[]" 1
        "''nothing to commit''" "[]" 1 "[]" "[]"]
    by (simp add: s rough_sel nothing_to_commit_sel git_add_repr str_int_3 strip_ex1 strip_ex2)
qed

text \<open>
  C6. Whatever the random generator draws, the shuffled list holds the same directories
  as \<open>BACKUP_DIRS\<close>, each as often (once: the list has no repetition), and the subprocesses
  that \<open>backup_c_drive\<close> starts are the \<^verbatim>\<open>restic backup\<close> commands of the shuffled
  directories, one for each, in that order.
\<close>

theorem shuffle_keeps_directories:
  "mset (shuffle (randbelow w) BACKUP_DIRS) = mset BACKUP_DIRS \<and>
   distinct (shuffle (randbelow w) BACKUP_DIRS) \<and>
   map inv_args (drop (length (calls s)) (calls (snd (backup_c_drive w s)))) =
     map (\<lambda>d. [''restic''] @ RESTIC_DEFAULT_ARGS @
               [''backup'', home_path w [d], ''--use-fs-snapshot'', ''--tag'', ''Windows''])
       (shuffle (randbelow w) BACKUP_DIRS)"
proof -
  have m: "mset (shuffle (randbelow w) BACKUP_DIRS) = mset BACKUP_DIRS"
    by (rule mset_shuffle)
  have "distinct BACKUP_DIRS" by (simp add: BACKUP_DIRS_def)
  then have d: "distinct (shuffle (randbelow w) BACKUP_DIRS)"
    using m mset_eq_imp_distinct_iff by blast
  have "drop (length (calls s)) (calls (snd (backup_c_drive w s))) =
     map (\<lambda>d. \<lparr>inv_args = [''restic''] @ RESTIC_DEFAULT_ARGS @
                     [''backup'', home_path w [d], ''--use-fs-snapshot'', ''--tag'', ''Windows''],
                  inv_stdin = None,
                  inv_env = Some (fold (\<lambda>(var, val) e. AList.update var val e) RESTIC_ENV_VARS
                                    (environ w))\<rparr>)
         (shuffle (randbelow w) BACKUP_DIRS)"
    using backup_c_drive_loop_run[of w "shuffle (randbelow w) BACKUP_DIRS" s]
    by (simp add: backup_c_drive_def Let_def)
  then show ?thesis using m d by (simp add: comp_def)
qed

text \<open>
  C7. Whatever the outcomes of the subprocesses, \<open>backup_c_drive\<close> returns normally
  after starting one \<^verbatim>\<open>restic backup\<close> for every directory of the shuffled list, in the
  order of the list: no outcome of one directory's backup stops the loop.
\<close>

theorem backup_c_drive_attempts_every_directory:
  "fst (backup_c_drive w s) = Inr () \<and>
   calls (snd (backup_c_drive w s)) =
     calls s @
       map (\<lambda>d. \<lparr>inv_args = [''restic''] @ RESTIC_DEFAULT_ARGS @
                     [''backup'', home_path w [d], ''--use-fs-snapshot'', ''--tag'', ''Windows''],
                  inv_stdin = None,
                  inv_env = Some (fold (\<lambda>(var, val) e. AList.update var val e) RESTIC_ENV_VARS
                                    (environ w))\<rparr>)
         (shuffle (randbelow w) BACKUP_DIRS) \<and>
   length (calls (snd (backup_c_drive w s))) = length (calls s) + length BACKUP_DIRS"
proof -
  have "length (shuffle (randbelow w) BACKUP_DIRS) = length BACKUP_DIRS"
    using mset_shuffle[of "randbelow w" BACKUP_DIRS] by (rule mset_eq_length)
  then show ?thesis
    using backup_c_drive_loop_run[of w "shuffle (randbelow w) BACKUP_DIRS" s]
    by (simp add: backup_c_drive_def Let_def)
qed

text \<open>
  C8. The error list only grows. The task wrapper leaves the list the task left, with
  at most one entry appended; the loop of \<open>backup_c_drive\<close> extends the list it starts
  from; \<open>notify\<close> leaves it as it is; and in \<open>do_backup_windows\<close>, which starts from
  the empty list, the list after each of the seven tasks extends the list after the task
  before it, the last of them being the list of the final state.
\<close>

theorem error_list_only_grows:
  "prefix (errors (snd (task s0))) (errors (snd (try_task task s0))) \<and>
   prefix (errors s0) (errors (snd (backup_c_drive_loop w ds s0))) \<and>
   errors (snd (notify w subject msg s0)) = errors s0 \<and>
   (\<exists>a b c d e f g.
      try_task (commit_notes w) (s\<lparr>errors := []\<rparr>) = (Inr (), a) \<and>
      try_task (backup_aws w) a = (Inr (), b) \<and>
      try_task (choco_upgrade w) b = (Inr (), c) \<and>
      try_task (wsl_upgrade w) c = (Inr (), d) \<and>
      try_task (backup_c_drive w) d = (Inr (), e) \<and>
      try_task (backup_wsl w) e = (Inr (), f) \<and>
      try_task (check_restic_integrity w) f = (Inr (), g) \<and>
      prefix (errors a) (errors b) \<and> prefix (errors b) (errors c) \<and>
      prefix (errors c) (errors d) \<and> prefix (errors d) (errors e) \<and>
      prefix (errors e) (errors f) \<and> prefix (errors f) (errors g) \<and>
      errors (snd (do_backup_windows w s)) = errors g)"
proof -
  have 1: "prefix (errors (snd (task s0))) (errors (snd (try_task task s0)))"
    by (simp add: try_task_errors)
  have 2: "prefix (errors s0) (errors (snd (backup_c_drive_loop w ds s0)))"
    using wb_backup_c_drive_loop[of w ds] unfolding well_behaved_def by blast
  have 3: "errors (snd (notify w subject msg s0)) = errors s0" by (rule notify_errors)
  obtain a b c d e f g where ch:
     "try_task (commit_notes w) (s\<lparr>errors := []\<rparr>) = (Inr (), a)"
     "try_task (backup_aws w) a = (Inr (), b)"
     "try_task (choco_upgrade w) b = (Inr (), c)"
     "try_task (wsl_upgrade w) c = (Inr (), d)"
     "try_task (backup_c_drive w) d = (Inr (), e)"
     "try_task (backup_wsl w) e = (Inr (), f)"
     "try_task (check_restic_integrity w) f = (Inr (), g)"
     "prefix (errors a) (errors b)" "prefix (errors b) (errors c)"
     "prefix (errors c) (errors d)" "prefix (errors d) (errors e)"
     "prefix (errors e) (errors f)" "prefix (errors f) (errors g)"
     and r: "do_backup_windows w s =
       (if length (errors g) = 0
        then notify w ''Backup succeeded'' (Str ''Hope you're having a nice day :)'') g
        else notify w
          (''Backup failed! '' @ str_int (int (length (errors g))) @ '' error'' @
             (if length (errors g) = 1 then [] else ''s''))
          (Str (strip (concat (map py_str (errors g))))) g)"
    using do_backup_windows_chain[of w s] by blast
  have "errors (snd (do_backup_windows w s)) = errors g"
    unfolding r by (simp add: notify_errors)
  with ch have 4: "\<exists>a b c d e f g.
      try_task (commit_notes w) (s\<lparr>errors := []\<rparr>) = (Inr (), a) \<and>
      try_task (backup_aws w) a = (Inr (), b) \<and>
      try_task (choco_upgrade w) b = (Inr (), c) \<and>
      try_task (wsl_upgrade w) c = (Inr (), d) \<and>
      try_task (backup_c_drive w) d = (Inr (), e) \<and>
      try_task (backup_wsl w) e = (Inr (), f) \<and>
      try_task (check_restic_integrity w) f = (Inr (), g) \<and>
      prefix (errors a) (errors b) \<and> prefix (errors b) (errors c) \<and>
      prefix (errors c) (errors d) \<and> prefix (errors d) (errors e) \<and>
      prefix (errors e) (errors f) \<and> prefix (errors f) (errors g) \<and>
      errors (snd (do_backup_windows w s)) = errors g"
    by blast
  show ?thesis using 1 2 3 4 by (intro conjI)
qed

text \<open>
  C9. When the error list is empty after the tasks, the report of \<open>do_backup_windows\<close>
  has the subject \<^verbatim>\<open>Backup succeeded\<close> and the fixed message.
\<close>

theorem success_report:
  "errors (snd (do_backup_windows w s)) = [] \<longrightarrow>
     (\<exists>d. mails (snd (do_backup_windows w s)) =
        mails s @
          [\<lparr>mail_subject = ''Backup succeeded'',
            mail_msg = ''Hope you're having a nice day :)'', delivered = d\<rparr>])"
  using do_backup_windows_mail[of s w] by auto

theorem success_report_witness:
  "errors (snd (do_backup_windows calm_world start)) = [] \<and>
   map mail_subject (mails (snd (do_backup_windows calm_world start))) = [''Backup succeeded''] \<and>
   map mail_msg (mails (snd (do_backup_windows calm_world start))) =
     [''Hope you're having a nice day :)''] \<and>
   map mail_subject (mails (snd (do_backup_windows nothing_to_commit_world start))) =
     [''Backup succeeded'']"
proof -
  have m: "mails start = []" by (simp add: start_def)
  show ?thesis
    using success_report[of calm_world start] success_report[of nothing_to_commit_world start]
      calm_errors nothing_to_commit_errors
    by (auto simp: m)
qed

text \<open>
  C10. \<open>backup_wsl\<close> starts one subprocess, in an environment whose \<^verbatim>\<open>WSLENV\<close> is the
  value \<^verbatim>\<open>WSLENV\<close> had in \<^verbatim>\<open>os.environ\<close> (the empty string when it had none) followed by
  a colon and the name, for each of the four names of \<open>RESTIC_ENV_VARS\<close> in their order.
  When \<^verbatim>\<open>WSLENV\<close> was not set, the new value starts with a colon.
\<close>

theorem wslenv_allowlist:
  "\<exists>env. calls (snd (backup_wsl w s)) =
          calls s @
            [\<lparr>inv_args = [''wsl.exe'', ''--shell-type'', ''none'', ''/home/alex/.local/bin/restic'',
                          ''backup'', ''/home/alex'', ''--tag'', ''WSL''] @ RESTIC_DEFAULT_ARGS,
              inv_stdin = None, inv_env = Some env\<rparr>] \<and>
     map_of env ''WSLENV'' =
       Some ((case map_of (environ w) ''WSLENV'' of Some v \<Rightarrow> v | None \<Rightarrow> []) @
             concat (map (\<lambda>var_name. '':'' @ var_name) (map fst RESTIC_ENV_VARS))) \<and>
     map fst RESTIC_ENV_VARS =
       [''RESTIC_REPOSITORY'', ''AWS_ACCESS_KEY_ID'', ''AWS_SECRET_ACCESS_KEY'', ''RESTIC_PASSWORD''] \<and>
     (map_of (environ w) ''WSLENV'' = None \<longrightarrow>
        map_of env ''WSLENV'' =
          Some '':RESTIC_REPOSITORY:AWS_ACCESS_KEY_ID:AWS_SECRET_ACCESS_KEY:RESTIC_PASSWORD'')"
  by (simp add: backup_wsl_def Let_def sh_calls RESTIC_ENV_VARS_def update_conv')

theorem wslenv_allowlist_witness:
  "map_of (environ calm_world) ''WSLENV'' = None \<and>
   map (\<lambda>c. map_option (\<lambda>env. map_of env ''WSLENV'') (inv_env c))
     (calls (snd (backup_wsl calm_world start))) =
     [Some (Some '':RESTIC_REPOSITORY:AWS_ACCESS_KEY_ID:AWS_SECRET_ACCESS_KEY:RESTIC_PASSWORD'')] \<and>
   map (\<lambda>c. map_option (\<lambda>env. map_of env ''WSLENV'') (inv_env c))
     (calls (snd (backup_wsl (calm_world\<lparr>environ := [(''WSLENV'', ''GOPATH/l'')]\<rparr>) start))) =
     [Some (Some
        ''GOPATH/l:RESTIC_REPOSITORY:AWS_ACCESS_KEY_ID:AWS_SECRET_ACCESS_KEY:RESTIC_PASSWORD'')]"
proof -
  have s: "calls start = []" by (simp add: start_def)
  have e: "map_of (environ calm_world) ''WSLENV'' = None"
    by (simp add: calm_world_def)
  have k: "concat (map (\<lambda>var_name. '':'' @ var_name) (map fst RESTIC_ENV_VARS)) =
      '':RESTIC_REPOSITORY:AWS_ACCESS_KEY_ID:AWS_SECRET_ACCESS_KEY:RESTIC_PASSWORD''"
    by (simp add: RESTIC_ENV_VARS_def)
  show ?thesis
    using wslenv_allowlist[of calm_world start]
      wslenv_allowlist[of "calm_world\<lparr>environ := [(''WSLENV'', ''GOPATH/l'')]\<rparr>" start]
    unfolding k by (auto simp: s e)
qed

end
